theory Spec2Isabelle
  imports Complex_Main "HOL-Library.Word" "HOL-Library.Log_Nat"
begin

unbundle bit_operations_syntax

section \<open>JavaScript numbers\<close>

text \<open>
  Every JavaScript number is an IEEE 754 double.  The finite doubles are modelled as the
  rationals they denote; each arithmetic operator computes the exact rational result and
  rounds it to the nearest double (ties to even), as the language does.  \<open>NaN\<close>, the
  infinities and the sign of zero are not represented: no expression of the modelled code
  produces them from finite arguments (the only divisor is the constant 255, and the
  magnitudes stay far below the overflow threshold).
\<close>

type_synonym number = rat

text \<open>\<open>ilog2 x\<close> is the binary exponent of a non-zero \<open>x\<close>: the \<open>e\<close> with
  \<open>2\<^sup>e \<le> \<bar>x\<bar> < 2\<^sup>e\<^sup>+\<^sup>1\<close>.\<close>

definition ilog2 :: "rat \<Rightarrow> int" where
  "ilog2 x = (case quotient_of \<bar>x\<bar> of (p, q) \<Rightarrow>
     (let d = bitlen p - bitlen q in if 2 powi d \<le> \<bar>x\<bar> then d else d - 1))"

definition round_half_even :: "rat \<Rightarrow> int" where
  "round_half_even x = (let n = \<lfloor>x\<rfloor>; r = x - of_int n in
     if r < 1 / 2 then n else if 1 / 2 < r then n + 1 else if even n then n else n + 1)"

text \<open>Rounding to double precision: 53 significant bits, least exponent \<open>-1074\<close>
  (the subnormal range), round to nearest, ties to even.\<close>

definition fl :: "rat \<Rightarrow> number" where
  "fl x = (if x = 0 then 0 else
     (let q = max (ilog2 x - 52) (- 1074)
      in of_int (round_half_even (x / 2 powi q)) * 2 powi q))"

definition js_mul :: "number \<Rightarrow> number \<Rightarrow> number" where
  "js_mul a b = fl (a * b)"

definition js_div :: "number \<Rightarrow> number \<Rightarrow> number" where
  "js_div a b = fl (a / b)"

definition js_add :: "number \<Rightarrow> number \<Rightarrow> number" where
  "js_add a b = fl (a + b)"

text \<open>The bitwise operators convert their operands with \<open>ToInt32\<close> (truncate towards
  zero, then wrap modulo \<open>2\<^sup>3\<^sup>2\<close>), work on 32-bit words and return the result read as
  a signed 32-bit integer.  A shift count is taken modulo 32.\<close>

definition ToInt32 :: "number \<Rightarrow> 32 word" where
  "ToInt32 v = word_of_int (if v < 0 then - \<lfloor>- v\<rfloor> else \<lfloor>v\<rfloor>)"

definition of_int32 :: "32 word \<Rightarrow> number" where
  "of_int32 w = of_int (sint w)"

definition shift_count :: "number \<Rightarrow> nat" where
  "shift_count n = unat (ToInt32 n AND 31)"

definition js_shl :: "number \<Rightarrow> number \<Rightarrow> number" where
  "js_shl a n = of_int32 (push_bit (shift_count n) (ToInt32 a))"

definition js_sar :: "number \<Rightarrow> number \<Rightarrow> number" where
  "js_sar a n = of_int32 (signed_drop_bit (shift_count n) (ToInt32 a))"

definition js_and :: "number \<Rightarrow> number \<Rightarrow> number" where
  "js_and a b = of_int32 (ToInt32 a AND ToInt32 b)"

definition js_or :: "number \<Rightarrow> number \<Rightarrow> number" where
  "js_or a b = of_int32 (ToInt32 a OR ToInt32 b)"


section \<open>Effect descriptors\<close>

text \<open>Modelled from the spec: the constant table \<open>FX_CONST\<close> (\<open>require('./const')\<close>) is
  not among the sources; the spec describes it as an enumerated effect-kind tag, one per
  supported effect.\<close>

datatype fx_kind = GLOW | SHADOW | PIXELATE | VIGNETTE | SHINE | BLUR | GRADIENT | BLOOM
  | COLOR_MATRIX | CIRCLE | BARREL | DISPLACEMENT

text \<open>WebGL textures and render pipelines are external objects; only their identity
  matters here.\<close>

type_synonym gl_texture = nat
type_synonym pipeline = nat

record frame =
  glTexture :: "gl_texture option"

record pipeline_manager =
  FX_PIPELINE :: "pipeline option"

record renderer =
  pipelines :: "pipeline_manager option"

text \<open>The scene as far as this layer reads it: \<open>scene.sys.renderer\<close> (absent in a
  headless game, without \<open>pipelines\<close> under the Canvas renderer) and the named frames of
  \<open>scene.sys.textures\<close>.\<close>

record scene =
  renderer :: "renderer option"
  textures :: "string \<rightharpoonup> frame"

text \<open>What a descriptor reaches through its \<open>gameObject\<close> back-reference: the object's
  identity and its scene.\<close>

record game_object =
  name :: string
  scene :: scene

text \<open>Modelled from the spec: the base classes \<open>Controller\<close> (of \<open>Blur\<close>) and \<open>BaseFX\<close>
  (of \<open>Displacement\<close>) are not among the sources.  The spec gives their common fields: the
  kind tag, the owning-renderable reference and the active flag.\<close>

record base_fx =
  type :: fx_kind
  gameObject :: game_object
  active :: bool

definition BaseFX :: "fx_kind \<Rightarrow> game_object \<Rightarrow> base_fx" where
  "BaseFX kind obj = \<lparr>type = kind, gameObject = obj, active = True\<rparr>"

definition Controller :: "fx_kind \<Rightarrow> game_object \<Rightarrow> base_fx" where
  "Controller kind obj = \<lparr>type = kind, gameObject = obj, active = True\<rparr>"

subsection \<open>Blur\<close>

text \<open>\<open>glcolor\<close> is a three-element array, allocated by the constructor and written in
  place at the indices 0, 1 and 2 only.\<close>

record blur = base_fx +
  quality :: number
  x :: number
  y :: number
  steps :: number
  strength :: number
  glcolor :: "number \<times> number \<times> number"

text \<open>The accessor pair of the \<open>color\<close> property.\<close>

definition get_color :: "blur \<Rightarrow> number" where
  "get_color this = (case glcolor this of (c0, c1, c2) \<Rightarrow>
     js_add (js_add (js_shl (js_mul c0 255) 16) (js_shl (js_mul c1 255) 8))
            (js_or (js_mul c2 255) 0))"

definition set_color :: "number \<Rightarrow> blur \<Rightarrow> blur" where
  "set_color v this = this\<lparr>glcolor :=
     (js_div (js_and (js_sar v 16) 255) 255,
      js_div (js_and (js_sar v 8) 255) 255,
      js_div (js_and v 255) 255)\<rparr>"

text \<open>The constructor.  An omitted argument is \<open>None\<close> (\<open>undefined\<close>; for \<open>color\<close> also
  \<open>null\<close>).  The \<open>quality\<close> argument receives its default like the others, but the field
  is then assigned the literal 0.\<close>

definition Blur :: "game_object \<Rightarrow> number option \<Rightarrow> number option \<Rightarrow> number option \<Rightarrow>
    number option \<Rightarrow> number option \<Rightarrow> number option \<Rightarrow> blur" where
  "Blur obj quality_arg x_arg y_arg strength_arg color_arg steps_arg =
    (let quality_v = (case quality_arg of None \<Rightarrow> 0 | Some v \<Rightarrow> v);
         x_v = (case x_arg of None \<Rightarrow> 2 | Some v \<Rightarrow> v);
         y_v = (case y_arg of None \<Rightarrow> 2 | Some v \<Rightarrow> v);
         strength_v = (case strength_arg of None \<Rightarrow> 1 | Some v \<Rightarrow> v);
         steps_v = (case steps_arg of None \<Rightarrow> 4 | Some v \<Rightarrow> v);
         base = Controller BLUR obj;
         this = \<lparr>type = type base, gameObject = gameObject base, active = active base,
                 quality = 0, x = x_v, y = y_v, steps = steps_v, strength = strength_v,
                 glcolor = (1, 1, 1)\<rparr>
     in case color_arg of None \<Rightarrow> this | Some c \<Rightarrow> set_color c this)"

subsection \<open>Displacement\<close>

record displacement = base_fx +
  x :: number
  y :: number
  glTexture :: "gl_texture option"

text \<open>Modelled from the spec: \<open>TextureManager.getFrame\<close> is not among the sources; the spec
  says a texture frame is resolved by name and that the named frame may not exist.\<close>

definition getFrame :: "(string \<rightharpoonup> frame) \<Rightarrow> string \<Rightarrow> frame option" where
  "getFrame texture_manager key = texture_manager key"

definition setTexture :: "string \<Rightarrow> displacement \<Rightarrow> displacement" where
  "setTexture texture this =
    (case getFrame (textures (scene (gameObject this))) texture of
       None \<Rightarrow> this
     | Some phaserTexture \<Rightarrow> this\<lparr>glTexture := frame.glTexture phaserTexture\<rparr>)"

definition Displacement :: "game_object \<Rightarrow> displacement" where
  "Displacement obj =
    (let base = BaseFX DISPLACEMENT obj;
         this = \<lparr>type = type base, gameObject = gameObject base, active = active base,
                 x = fl (5 / 1000), y = fl (5 / 1000), glTexture = None\<rparr>
     in setTexture ''__WHITE'' this)"

subsection \<open>The other effect classes\<close>

text \<open>Modelled from the spec: the classes \<open>Glow\<close>, \<open>Shadow\<close>, \<open>Pixelate\<close>, \<open>Vignette\<close>,
  \<open>Shine\<close>, \<open>Gradient\<close>, \<open>Bloom\<close>, \<open>ColorMatrix\<close>, \<open>Circle\<close> and \<open>Barrel\<close> are not among
  the sources.  Each is a descriptor \<open>identified by an effect-kind tag\<close> that holds the
  back-reference and the active flag; their effect-specific fields are unknown and left
  out.\<close>

definition Glow :: "game_object \<Rightarrow> base_fx" where "Glow obj = BaseFX GLOW obj"
definition Shadow :: "game_object \<Rightarrow> base_fx" where "Shadow obj = BaseFX SHADOW obj"
definition Pixelate :: "game_object \<Rightarrow> base_fx" where "Pixelate obj = BaseFX PIXELATE obj"
definition Vignette :: "game_object \<Rightarrow> base_fx" where "Vignette obj = BaseFX VIGNETTE obj"
definition Shine :: "game_object \<Rightarrow> base_fx" where "Shine obj = BaseFX SHINE obj"
definition Gradient :: "game_object \<Rightarrow> base_fx" where "Gradient obj = BaseFX GRADIENT obj"
definition Bloom :: "game_object \<Rightarrow> base_fx" where "Bloom obj = BaseFX BLOOM obj"
definition ColorMatrix :: "game_object \<Rightarrow> base_fx" where "ColorMatrix obj = BaseFX COLOR_MATRIX obj"
definition Circle :: "game_object \<Rightarrow> base_fx" where "Circle obj = BaseFX CIRCLE obj"
definition Barrel :: "game_object \<Rightarrow> base_fx" where "Barrel obj = BaseFX BARREL obj"

text \<open>An element of a renderable's descriptor list.\<close>

datatype effect = FX_Blur blur | FX_Displacement displacement | FX_Base base_fx

fun kind_tag :: "effect \<Rightarrow> fx_kind" where
  "kind_tag (FX_Blur d) = type d"
| "kind_tag (FX_Displacement d) = type d"
| "kind_tag (FX_Base d) = type d"


section \<open>The FX component\<close>

text \<open>A game object that has the mixin applied.  \<open>fx\<close> is \<open>null\<close> (\<open>None\<close>) until
  \<open>enableFX\<close> allocates the array.  \<open>pipeline\<close> and \<open>defaultPipeline\<close> belong to the
  Pipeline component of the same object.\<close>

record renderable = game_object +
  pipeline :: "pipeline option"
  defaultPipeline :: "pipeline option"
  fx :: "effect list option"
  fxPadding :: number

datatype js_error = TypeError

definition setFXPadding :: "number option \<Rightarrow> renderable \<Rightarrow> renderable" where
  "setFXPadding padding this =
    (let padding_v = (case padding of None \<Rightarrow> 0 | Some v \<Rightarrow> v)
     in this\<lparr>fxPadding := padding_v\<rparr>)"

definition enableFX :: "number option \<Rightarrow> renderable \<Rightarrow> renderable" where
  "enableFX padding this =
    (case renderer (scene this) of
       None \<Rightarrow> this
     | Some rend \<Rightarrow>
        (case pipelines rend of
           None \<Rightarrow> this
         | Some mgr \<Rightarrow>
            (let this1 = this\<lparr>pipeline := FX_PIPELINE mgr\<rparr>;
                 this2 = (if fx this1 = None then this1\<lparr>fx := Some []\<rparr> else this1)
             in case padding of
                  None \<Rightarrow> this2
                | Some v \<Rightarrow> this2\<lparr>fxPadding := v\<rparr>)))"

text \<open>Both are empty stubs in the source.\<close>

definition clearFX :: "renderable \<Rightarrow> renderable" where
  "clearFX this = this"

definition removeFX :: "renderable \<Rightarrow> renderable" where
  "removeFX this = this"

text \<open>Modelled from the spec: \<open>resetPipeline\<close> belongs to the Pipeline component, which is
  not among the sources.  The spec: it reverts the renderable to its default (non-FX)
  render pipeline.\<close>

definition resetPipeline :: "renderable \<Rightarrow> renderable" where
  "resetPipeline this = this\<lparr>pipeline := defaultPipeline this\<rparr>"

text \<open>\<open>disableFX\<close> calls \<open>this.resetPipeline()\<close> and \<open>this.clearFX()\<close>; both are looked
  up on the object, so they are arguments here.  The mixin itself supplies \<open>clearFX\<close>.\<close>

definition disableFX ::
    "(renderable \<Rightarrow> renderable) \<Rightarrow> (renderable \<Rightarrow> renderable) \<Rightarrow> bool \<Rightarrow> renderable \<Rightarrow> renderable" where
  "disableFX this_resetPipeline this_clearFX clear this =
    (let this1 = this_resetPipeline this
     in if clear then this_clearFX this1 else this1)"

text \<open>The twelve \<open>add\<dots>FX\<close> methods.  Each returns the object's new state and either the
  new descriptor or the error thrown by \<open>this.fx.push\<close> on a \<open>null\<close> list.\<close>

definition addGlowFX :: "renderable \<Rightarrow> renderable \<times> (js_error + effect)" where
  "addGlowFX this =
    (let this1 = (if fx this = None then enableFX None this else this);
         new_fx = FX_Base (Glow (game_object.truncate this1))
     in case fx this1 of
          None \<Rightarrow> (this1, Inl TypeError)
        | Some list \<Rightarrow> (this1\<lparr>fx := Some (list @ [new_fx])\<rparr>, Inr new_fx))"

definition addShadowFX :: "renderable \<Rightarrow> renderable \<times> (js_error + effect)" where
  "addShadowFX this =
    (let this1 = (if fx this = None then enableFX None this else this);
         new_fx = FX_Base (Shadow (game_object.truncate this1))
     in case fx this1 of
          None \<Rightarrow> (this1, Inl TypeError)
        | Some list \<Rightarrow> (this1\<lparr>fx := Some (list @ [new_fx])\<rparr>, Inr new_fx))"

definition addPixelateFX :: "renderable \<Rightarrow> renderable \<times> (js_error + effect)" where
  "addPixelateFX this =
    (let this1 = (if fx this = None then enableFX None this else this);
         new_fx = FX_Base (Pixelate (game_object.truncate this1))
     in case fx this1 of
          None \<Rightarrow> (this1, Inl TypeError)
        | Some list \<Rightarrow> (this1\<lparr>fx := Some (list @ [new_fx])\<rparr>, Inr new_fx))"

definition addVignetteFX :: "renderable \<Rightarrow> renderable \<times> (js_error + effect)" where
  "addVignetteFX this =
    (let this1 = (if fx this = None then enableFX None this else this);
         new_fx = FX_Base (Vignette (game_object.truncate this1))
     in case fx this1 of
          None \<Rightarrow> (this1, Inl TypeError)
        | Some list \<Rightarrow> (this1\<lparr>fx := Some (list @ [new_fx])\<rparr>, Inr new_fx))"

definition addShineFX :: "renderable \<Rightarrow> renderable \<times> (js_error + effect)" where
  "addShineFX this =
    (let this1 = (if fx this = None then enableFX None this else this);
         new_fx = FX_Base (Shine (game_object.truncate this1))
     in case fx this1 of
          None \<Rightarrow> (this1, Inl TypeError)
        | Some list \<Rightarrow> (this1\<lparr>fx := Some (list @ [new_fx])\<rparr>, Inr new_fx))"

definition addBlurFX :: "renderable \<Rightarrow> renderable \<times> (js_error + effect)" where
  "addBlurFX this =
    (let this1 = (if fx this = None then enableFX None this else this);
         new_fx = FX_Blur (Blur (game_object.truncate this1) None None None None None None)
     in case fx this1 of
          None \<Rightarrow> (this1, Inl TypeError)
        | Some list \<Rightarrow> (this1\<lparr>fx := Some (list @ [new_fx])\<rparr>, Inr new_fx))"

definition addGradientFX :: "renderable \<Rightarrow> renderable \<times> (js_error + effect)" where
  "addGradientFX this =
    (let this1 = (if fx this = None then enableFX None this else this);
         new_fx = FX_Base (Gradient (game_object.truncate this1))
     in case fx this1 of
          None \<Rightarrow> (this1, Inl TypeError)
        | Some list \<Rightarrow> (this1\<lparr>fx := Some (list @ [new_fx])\<rparr>, Inr new_fx))"

definition addBloomFX :: "renderable \<Rightarrow> renderable \<times> (js_error + effect)" where
  "addBloomFX this =
    (let this1 = (if fx this = None then enableFX None this else this);
         new_fx = FX_Base (Bloom (game_object.truncate this1))
     in case fx this1 of
          None \<Rightarrow> (this1, Inl TypeError)
        | Some list \<Rightarrow> (this1\<lparr>fx := Some (list @ [new_fx])\<rparr>, Inr new_fx))"

definition addColorMatrixFX :: "renderable \<Rightarrow> renderable \<times> (js_error + effect)" where
  "addColorMatrixFX this =
    (let this1 = (if fx this = None then enableFX None this else this);
         new_fx = FX_Base (ColorMatrix (game_object.truncate this1))
     in case fx this1 of
          None \<Rightarrow> (this1, Inl TypeError)
        | Some list \<Rightarrow> (this1\<lparr>fx := Some (list @ [new_fx])\<rparr>, Inr new_fx))"

definition addCircleFX :: "renderable \<Rightarrow> renderable \<times> (js_error + effect)" where
  "addCircleFX this =
    (let this1 = (if fx this = None then enableFX None this else this);
         new_fx = FX_Base (Circle (game_object.truncate this1))
     in case fx this1 of
          None \<Rightarrow> (this1, Inl TypeError)
        | Some list \<Rightarrow> (this1\<lparr>fx := Some (list @ [new_fx])\<rparr>, Inr new_fx))"

definition addBarrelFX :: "renderable \<Rightarrow> renderable \<times> (js_error + effect)" where
  "addBarrelFX this =
    (let this1 = (if fx this = None then enableFX None this else this);
         new_fx = FX_Base (Barrel (game_object.truncate this1))
     in case fx this1 of
          None \<Rightarrow> (this1, Inl TypeError)
        | Some list \<Rightarrow> (this1\<lparr>fx := Some (list @ [new_fx])\<rparr>, Inr new_fx))"

definition addDisplacementFX :: "renderable \<Rightarrow> renderable \<times> (js_error + effect)" where
  "addDisplacementFX this =
    (let this1 = (if fx this = None then enableFX None this else this);
         new_fx = FX_Displacement (Displacement (game_object.truncate this1))
     in case fx this1 of
          None \<Rightarrow> (this1, Inl TypeError)
        | Some list \<Rightarrow> (this1\<lparr>fx := Some (list @ [new_fx])\<rparr>, Inr new_fx))"

text \<open>The method that adds an effect of a given kind.\<close>

fun add_fx :: "fx_kind \<Rightarrow> renderable \<Rightarrow> renderable \<times> (js_error + effect)" where
  "add_fx GLOW = addGlowFX"
| "add_fx SHADOW = addShadowFX"
| "add_fx PIXELATE = addPixelateFX"
| "add_fx VIGNETTE = addVignetteFX"
| "add_fx SHINE = addShineFX"
| "add_fx BLUR = addBlurFX"
| "add_fx GRADIENT = addGradientFX"
| "add_fx BLOOM = addBloomFX"
| "add_fx COLOR_MATRIX = addColorMatrixFX"
| "add_fx CIRCLE = addCircleFX"
| "add_fx BARREL = addBarrelFX"
| "add_fx DISPLACEMENT = addDisplacementFX"

text \<open>The descriptor that the method for a kind constructs for an owner.\<close>

fun new_effect :: "fx_kind \<Rightarrow> game_object \<Rightarrow> effect" where
  "new_effect GLOW obj = FX_Base (Glow obj)"
| "new_effect SHADOW obj = FX_Base (Shadow obj)"
| "new_effect PIXELATE obj = FX_Base (Pixelate obj)"
| "new_effect VIGNETTE obj = FX_Base (Vignette obj)"
| "new_effect SHINE obj = FX_Base (Shine obj)"
| "new_effect BLUR obj = FX_Blur (Blur obj None None None None None None)"
| "new_effect GRADIENT obj = FX_Base (Gradient obj)"
| "new_effect BLOOM obj = FX_Base (Bloom obj)"
| "new_effect COLOR_MATRIX obj = FX_Base (ColorMatrix obj)"
| "new_effect CIRCLE obj = FX_Base (Circle obj)"
| "new_effect BARREL obj = FX_Base (Barrel obj)"
| "new_effect DISPLACEMENT obj = FX_Displacement (Displacement obj)"

text \<open>Calling the methods for a list of kinds one after the other, descriptors dropped.\<close>

fun add_all :: "fx_kind list \<Rightarrow> renderable \<Rightarrow> renderable" where
  "add_all [] this = this"
| "add_all (k # ks) this = add_all ks (fst (add_fx k this))"

section \<open>Evaluating the rounding on fractions of integers\<close>

text \<open>Integer versions of the pieces of \<open>fl\<close>, for an argument \<open>p / q\<close> whose binary
  exponent \<open>e\<close> is given.\<close>

definition round_half_even_frac :: "int \<Rightarrow> int \<Rightarrow> int" where
  "round_half_even_frac a b = (let n = a div b; r2 = 2 * (a mod b) in
     if r2 < b then n else if b < r2 then n + 1 else if even n then n else n + 1)"

definition in_binade :: "int \<Rightarrow> int \<Rightarrow> int \<Rightarrow> bool" where
  "in_binade p q e = (if 0 \<le> e then q * 2 ^ nat e \<le> p \<and> p < q * 2 ^ nat (e + 1)
     else q \<le> p * 2 ^ nat (- e) \<and> p * 2 ^ nat (- e - 1) < q)"

definition fl_frac :: "int \<Rightarrow> int \<Rightarrow> int \<Rightarrow> int \<times> int" where
  "fl_frac p q e = (let s = max (e - 52) (- 1074) in
     (if 0 \<le> s then round_half_even_frac p (q * 2 ^ nat s)
      else round_half_even_frac (p * 2 ^ nat (- s)) q, s))"

text \<open>\<open>byte_ok k e e'\<close>: dividing \<open>k\<close> by 255 (exponent \<open>e\<close>) and multiplying the
  rounded quotient by 255 (exponent \<open>e'\<close>) rounds back to \<open>k\<close>.\<close>

definition byte_ok :: "int \<Rightarrow> int \<Rightarrow> int \<Rightarrow> bool" where
  "byte_ok k e e' = (in_binade k 255 e \<and> (case fl_frac k 255 e of (m, s) \<Rightarrow>
      0 < m \<and> s \<le> 0 \<and> in_binade (m * 255) (2 ^ nat (- s)) e' \<and>
      (case fl_frac (m * 255) (2 ^ nat (- s)) e' of (m', s') \<Rightarrow>
         s' \<le> 0 \<and> m' = k * 2 ^ nat (- s'))))"

definition byte_check :: "int \<Rightarrow> bool" where
  "byte_check k = (let j = bitlen k - 1; e = (if k = 255 then 0 else j - 8)
     in byte_ok k e j \<or> byte_ok k e (j - 1))"


section \<open>Example objects\<close>

text \<open>Three scenes: a WebGL game whose pipeline manager has the FX pipeline and whose
  texture manager has the default white frame, a Canvas game (a renderer without
  pipelines) and a headless game (no renderer); and a freshly created sprite in a scene.\<close>

definition webgl_scene :: scene where
  "webgl_scene = \<lparr>renderer = Some \<lparr>pipelines = Some \<lparr>FX_PIPELINE = Some 7\<rparr>\<rparr>,
     textures = [''__WHITE'' \<mapsto> \<lparr>frame.glTexture = Some 1\<rparr>]\<rparr>"

definition canvas_scene :: scene where
  "canvas_scene = \<lparr>renderer = Some \<lparr>pipelines = None\<rparr>, textures = Map.empty\<rparr>"

definition headless_scene :: scene where
  "headless_scene = \<lparr>renderer = None, textures = Map.empty\<rparr>"

definition sprite :: "scene \<Rightarrow> renderable" where
  "sprite sc = \<lparr>name = ''sprite'', scene = sc, pipeline = Some 3, defaultPipeline = Some 3,
     fx = None, fxPadding = 0\<rparr>"

definition sprite_ref :: "scene \<Rightarrow> game_object" where
  "sprite_ref sc = game_object.truncate (sprite sc)"


section \<open>Properties of the FX component\<close>

text \<open>C9: \<open>setFXPadding(n)\<close> stores \<open>n\<close> as the object's \<open>fxPadding\<close> whatever \<open>n\<close> is,
  changes nothing else, and returns the object; without an argument it stores 0.\<close>

theorem setFXPadding_stores:
  "setFXPadding (Some n) this = this\<lparr>fxPadding := n\<rparr> \<and>
   setFXPadding None this = this\<lparr>fxPadding := 0\<rparr> \<and>
   fxPadding (setFXPadding (Some n) this) = n \<and>
   fxPadding (setFXPadding None this) = 0"
  by (simp add: setFXPadding_def)

text \<open>C4: when the scene has no renderer, or the renderer has no pipelines, \<open>enableFX\<close>
  returns the object as it was: the descriptor list stays \<open>null\<close>, padding and pipeline
  keep their values, and nothing is thrown (the function is total).\<close>

theorem enableFX_without_pipeline:
  assumes "renderer (scene this) = None \<or>
           (\<exists>rend. renderer (scene this) = Some rend \<and> pipelines rend = None)"
  shows "enableFX padding this = this \<and>
         (fx this = None \<longrightarrow> fx (enableFX padding this) = None) \<and>
         fxPadding (enableFX padding this) = fxPadding this \<and>
         pipeline (enableFX padding this) = pipeline this"
  using assms by (auto simp add: enableFX_def)

theorem enableFX_without_pipeline_witness:
  "renderer (scene (sprite headless_scene)) = None \<and>
   enableFX (Some 4) (sprite headless_scene) = sprite headless_scene \<and>
   fx (enableFX (Some 4) (sprite headless_scene)) = None \<and>
   fxPadding (enableFX (Some 4) (sprite headless_scene)) = 0 \<and>
   pipeline (enableFX (Some 4) (sprite headless_scene)) = Some 3"
proof -
  have h: "renderer (scene (sprite headless_scene)) = None"
    by (simp add: sprite_def headless_scene_def)
  then have "renderer (scene (sprite headless_scene)) = None \<or>
      (\<exists>rend. renderer (scene (sprite headless_scene)) = Some rend \<and> pipelines rend = None)"
    by simp
  from enableFX_without_pipeline [OF this, of "Some 4"] h show ?thesis
    by (simp add: sprite_def)
qed


subsection \<open>Adding effects\<close>

lemmas add_fx_defs = addGlowFX_def addShadowFX_def addPixelateFX_def addVignetteFX_def
  addShineFX_def addBlurFX_def addGradientFX_def addBloomFX_def addColorMatrixFX_def
  addCircleFX_def addBarrelFX_def addDisplacementFX_def

lemma add_fx_eq:
  "add_fx k this =
    (let this1 = (if fx this = None then enableFX None this else this);
         new_fx = new_effect k (game_object.truncate this1)
     in case fx this1 of
          None \<Rightarrow> (this1, Inl TypeError)
        | Some list \<Rightarrow> (this1\<lparr>fx := Some (list @ [new_fx])\<rparr>, Inr new_fx))"
  by (cases k) (simp_all add: add_fx_defs)

lemma kind_tag_new_effect: "kind_tag (new_effect k obj) = k"
  by (cases k)
    (simp_all add: Glow_def Shadow_def Pixelate_def Vignette_def Shine_def Gradient_def
      Bloom_def ColorMatrix_def Circle_def Barrel_def BaseFX_def Controller_def Blur_def
      Displacement_def setTexture_def Let_def split: option.split)

lemma enableFX_allocates:
  assumes "renderer (scene this) = Some rend" "pipelines rend = Some mgr"
  shows "\<exists>list. fx (enableFX padding this) = Some list"
  using assms by (cases "fx this") (auto simp add: enableFX_def Let_def split: option.split)

lemma enableFX_fresh:
  assumes "renderer (scene this) = Some rend" "pipelines rend = Some mgr" "fx this = None"
  shows "fx (enableFX None this) = Some []"
  using assms by (simp add: enableFX_def Let_def)

lemma enableFX_no_pipeline:
  assumes "renderer (scene this) = None \<or>
           (\<exists>rend. renderer (scene this) = Some rend \<and> pipelines rend = None)"
  shows "enableFX padding this = this"
  using assms by (auto simp add: enableFX_def)

lemma add_fx_allocated:
  assumes "fx this = Some list"
  shows "add_fx k this =
    (this\<lparr>fx := Some (list @ [new_effect k (game_object.truncate this)])\<rparr>,
     Inr (new_effect k (game_object.truncate this)))"
  using assms by (simp add: add_fx_eq Let_def)

lemma add_all_appends:
  "fx this = Some list \<Longrightarrow>
   \<exists>ds. fx (add_all ks this) = Some (list @ ds) \<and> map kind_tag ds = ks"
proof (induction ks arbitrary: this list)
  case Nil
  then show ?case by simp
next
  case (Cons k ks)
  let ?d = "new_effect k (game_object.truncate this)"
  let ?this' = "this\<lparr>fx := Some (list @ [?d])\<rparr>"
  have "fx ?this' = Some (list @ [?d])" by simp
  from Cons.IH [OF this] obtain ds
    where "fx (add_all ks ?this') = Some ((list @ [?d]) @ ds)" "map kind_tag ds = ks"
    by blast
  then have "fx (add_all (k # ks) this) = Some (list @ (?d # ds))"
    and "map kind_tag (?d # ds) = k # ks"
    using Cons.prems by (simp_all add: add_fx_allocated kind_tag_new_effect)
  then show ?case by (intro exI [of _ "?d # ds"] conjI)
qed


text \<open>C3, amended: for every renderable whose descriptor list is already allocated, or
  whose scene has a renderer with pipelines, and for every supported kind \<open>K\<close>, the method
  \<open>add\<open>K\<close>FX\<close> first calls \<open>enableFX()\<close> if the list is not yet allocated, constructs a
  descriptor of kind \<open>K\<close>, appends it to the end of the list and returns that descriptor.
  Consequently, adding any sequence of kinds to a renderable with an allocated list
  extends the list by one descriptor per call, in the order of the calls, each carrying
  the kind tag of the method that added it; on a freshly enabled renderable the list then
  consists of exactly these descriptors (five calls: five descriptors).\<close>

theorem add_fx_appends:
  "(fx this \<noteq> None \<or>
      (\<exists>rend mgr. renderer (scene this) = Some rend \<and> pipelines rend = Some mgr) \<longrightarrow>
      (\<exists>this1 list. this1 = (if fx this = None then enableFX None this else this) \<and>
         fx this1 = Some list \<and>
         add_fx k this =
           (this1\<lparr>fx := Some (list @ [new_effect k (game_object.truncate this1)])\<rparr>,
            Inr (new_effect k (game_object.truncate this1))))) \<and>
   kind_tag (new_effect k obj) = k \<and>
   (fx this = Some list0 \<longrightarrow>
      (\<exists>ds. fx (add_all ks this) = Some (list0 @ ds) \<and> map kind_tag ds = ks)) \<and>
   ((\<exists>rend mgr. renderer (scene this) = Some rend \<and> pipelines rend = Some mgr) \<and>
      fx this = None \<longrightarrow>
      (\<exists>ds. fx (add_all ks (enableFX None this)) = Some ds \<and>
         length ds = length ks \<and> map kind_tag ds = ks))"
proof (intro conjI impI)
  assume a: "fx this \<noteq> None \<or>
      (\<exists>rend mgr. renderer (scene this) = Some rend \<and> pipelines rend = Some mgr)"
  define this1 where "this1 = (if fx this = None then enableFX None this else this)"
  have "\<exists>list. fx this1 = Some list"
  proof (cases "fx this")
    case None
    with a obtain rend mgr
      where "renderer (scene this) = Some rend" "pipelines rend = Some mgr" by auto
    from enableFX_allocates [OF this] None show ?thesis by (simp add: this1_def)
  next
    case (Some l)
    then show ?thesis by (simp add: this1_def)
  qed
  then obtain list where l: "fx this1 = Some list" ..
  have "add_fx k this =
     (this1\<lparr>fx := Some (list @ [new_effect k (game_object.truncate this1)])\<rparr>,
      Inr (new_effect k (game_object.truncate this1)))"
    using l by (simp add: add_fx_eq this1_def [symmetric] Let_def)
  with l this1_def
  show "\<exists>this1 list. this1 = (if fx this = None then enableFX None this else this) \<and>
         fx this1 = Some list \<and>
         add_fx k this =
           (this1\<lparr>fx := Some (list @ [new_effect k (game_object.truncate this1)])\<rparr>,
            Inr (new_effect k (game_object.truncate this1)))"
    by blast
next
  show "kind_tag (new_effect k obj) = k" by (rule kind_tag_new_effect)
next
  assume "fx this = Some list0"
  then show "\<exists>ds. fx (add_all ks this) = Some (list0 @ ds) \<and> map kind_tag ds = ks"
    by (rule add_all_appends)
next
  assume "(\<exists>rend mgr. renderer (scene this) = Some rend \<and> pipelines rend = Some mgr) \<and>
      fx this = None"
  then obtain rend mgr
    where "renderer (scene this) = Some rend" "pipelines rend = Some mgr" "fx this = None"
    by auto
  then have "fx (enableFX None this) = Some []" by (rule enableFX_fresh)
  from add_all_appends [OF this, of ks] obtain ds
    where d: "fx (add_all ks (enableFX None this)) = Some ds" "map kind_tag ds = ks"
    by auto
  from d(2) have "length (map kind_tag ds) = length ks" by simp
  then have "length ds = length ks" by simp
  with d show "\<exists>ds. fx (add_all ks (enableFX None this)) = Some ds \<and>
         length ds = length ks \<and> map kind_tag ds = ks"
    by (intro exI [of _ ds] conjI)
qed


theorem add_fx_appends_witness:
  "(\<exists>rend mgr. renderer (scene (sprite webgl_scene)) = Some rend \<and> pipelines rend = Some mgr) \<and>
   fx (sprite webgl_scene) = None \<and>
   (\<exists>this1 list. this1 = enableFX None (sprite webgl_scene) \<and> fx this1 = Some list \<and>
      add_fx GLOW (sprite webgl_scene) =
        (this1\<lparr>fx := Some (list @ [new_effect GLOW (game_object.truncate this1)])\<rparr>,
         Inr (new_effect GLOW (game_object.truncate this1)))) \<and>
   (\<exists>ds. fx (add_all [GLOW, SHADOW, BLUR, BLOOM, DISPLACEMENT] (enableFX None (sprite webgl_scene)))
           = Some ds \<and>
         length ds = 5 \<and> map kind_tag ds = [GLOW, SHADOW, BLUR, BLOOM, DISPLACEMENT])"
proof -
  let ?s = "sprite webgl_scene"
  have h1: "\<exists>rend mgr. renderer (scene ?s) = Some rend \<and> pipelines rend = Some mgr"
    by (simp add: sprite_def webgl_scene_def)
  have h2: "fx ?s = None" by (simp add: sprite_def)
  note t = add_fx_appends [of ?s GLOW "sprite_ref webgl_scene" "[]"
      "[GLOW, SHADOW, BLUR, BLOOM, DISPLACEMENT]"]
  from t [THEN conjunct1, THEN mp, OF disjI2 [OF h1]]
  have p1: "\<exists>this1 list. this1 = enableFX None ?s \<and> fx this1 = Some list \<and>
      add_fx GLOW ?s =
        (this1\<lparr>fx := Some (list @ [new_effect GLOW (game_object.truncate this1)])\<rparr>,
         Inr (new_effect GLOW (game_object.truncate this1)))"
    by (simp add: h2 del: add_fx.simps new_effect.simps)
  from t [THEN conjunct2, THEN conjunct2, THEN conjunct2, THEN mp, OF conjI [OF h1 h2]]
  have p2: "\<exists>ds. fx (add_all [GLOW, SHADOW, BLUR, BLOOM, DISPLACEMENT] (enableFX None ?s))
           = Some ds \<and>
         length ds = 5 \<and> map kind_tag ds = [GLOW, SHADOW, BLUR, BLOOM, DISPLACEMENT]"
    by (simp add: eval_nat_numeral del: add_all.simps)
  from h1 h2 p1 p2 show ?thesis by (intro conjI)
qed

text \<open>The claim as first stated covers every renderable; in a headless scene the method
  returns no descriptor and the list stays \<open>null\<close>.\<close>

theorem add_fx_appends_counterexample:
  "\<not> (\<exists>d. snd (addGlowFX (sprite headless_scene)) = Inr d) \<and>
   fx (fst (addGlowFX (sprite headless_scene))) = None"
  by (simp add: addGlowFX_def enableFX_def sprite_def headless_scene_def Let_def)

text \<open>C10: when the scene has no renderer, or the renderer has no pipelines, and the
  descriptor list is still \<open>null\<close> (as it is from the start, \<open>enableFX\<close> alone assigning
  it), every \<open>add\<dots>FX\<close> method throws: the lazy \<open>enableFX()\<close> returns without
  allocating the list and \<open>this.fx.push\<close> dereferences \<open>null\<close>.  The object is left as it
  was.\<close>

theorem add_fx_without_pipeline_throws:
  assumes "renderer (scene this) = None \<or>
           (\<exists>rend. renderer (scene this) = Some rend \<and> pipelines rend = None)"
    and "fx this = None"
  shows "enableFX None this = this \<and>
    (\<forall>k. add_fx k this = (this, Inl TypeError)) \<and>
    addGlowFX this = (this, Inl TypeError) \<and> addShadowFX this = (this, Inl TypeError) \<and>
    addPixelateFX this = (this, Inl TypeError) \<and> addVignetteFX this = (this, Inl TypeError) \<and>
    addShineFX this = (this, Inl TypeError) \<and> addBlurFX this = (this, Inl TypeError) \<and>
    addGradientFX this = (this, Inl TypeError) \<and> addBloomFX this = (this, Inl TypeError) \<and>
    addColorMatrixFX this = (this, Inl TypeError) \<and> addCircleFX this = (this, Inl TypeError) \<and>
    addBarrelFX this = (this, Inl TypeError) \<and> addDisplacementFX this = (this, Inl TypeError)"
proof -
  have e: "enableFX None this = this" using assms(1) by (rule enableFX_no_pipeline)
  have "add_fx k this = (this, Inl TypeError)" for k
    by (simp add: add_fx_eq e assms(2))
  from this [of GLOW] this [of SHADOW] this [of PIXELATE] this [of VIGNETTE] this [of SHINE]
    this [of BLUR] this [of GRADIENT] this [of BLOOM] this [of COLOR_MATRIX] this [of CIRCLE]
    this [of BARREL] this [of DISPLACEMENT] this e
  show ?thesis by simp
qed


theorem add_fx_without_pipeline_throws_witness:
  "(\<exists>rend. renderer (scene (sprite canvas_scene)) = Some rend \<and> pipelines rend = None) \<and>
   fx (sprite canvas_scene) = None \<and>
   addGlowFX (sprite canvas_scene) = (sprite canvas_scene, Inl TypeError) \<and>
   addDisplacementFX (sprite canvas_scene) = (sprite canvas_scene, Inl TypeError) \<and>
   add_fx BLUR (sprite canvas_scene) = (sprite canvas_scene, Inl TypeError)"
proof -
  let ?s = "sprite canvas_scene"
  have h0: "\<exists>rend. renderer (scene ?s) = Some rend \<and> pipelines rend = None"
    by (simp add: sprite_def canvas_scene_def)
  then have h1: "renderer (scene ?s) = None \<or>
      (\<exists>rend. renderer (scene ?s) = Some rend \<and> pipelines rend = None)" ..
  have h2: "fx ?s = None" by (simp add: sprite_def)
  from add_fx_without_pipeline_throws [OF h1 h2] h0 h2 show ?thesis by simp
qed

subsection \<open>Displacement textures\<close>

text \<open>C8: the \<open>Displacement\<close> constructor resolves the frame named \<open>__WHITE\<close> and takes
  its texture; in a scene without that frame the \<open>glTexture\<close> reference is left unset.  A later \<open>setTexture\<close> with
  an unknown name likewise assigns nothing: the descriptor is unchanged, so an unset
  reference stays unset.  Neither throws (both functions are total).\<close>

theorem displacement_missing_frame:
  "(textures (scene obj) ''__WHITE'' = Some white \<longrightarrow>
      displacement.glTexture (Displacement obj) = frame.glTexture white) \<and>
   (textures (scene obj) ''__WHITE'' = None \<longrightarrow>
      displacement.glTexture (Displacement obj) = None) \<and>
   (textures (scene (gameObject d)) texture = None \<longrightarrow>
      setTexture texture d = d \<and>
      (displacement.glTexture d = None \<longrightarrow> displacement.glTexture (setTexture texture d) = None))"
  by (simp add: Displacement_def setTexture_def getFrame_def BaseFX_def Let_def)


theorem displacement_missing_frame_witness:
  "textures (scene (sprite_ref webgl_scene)) ''__WHITE'' = Some \<lparr>frame.glTexture = Some 1\<rparr> \<and>
   displacement.glTexture (Displacement (sprite_ref webgl_scene)) = Some 1 \<and>
   textures (scene (sprite_ref headless_scene)) ''__WHITE'' = None \<and>
   displacement.glTexture (Displacement (sprite_ref headless_scene)) = None \<and>
   textures (scene (gameObject (Displacement (sprite_ref webgl_scene)))) ''noise'' = None \<and>
   setTexture ''noise'' (Displacement (sprite_ref webgl_scene)) = Displacement (sprite_ref webgl_scene) \<and>
   textures (scene (gameObject (Displacement (sprite_ref headless_scene)))) ''noise'' = None \<and>
   displacement.glTexture (setTexture ''noise'' (Displacement (sprite_ref headless_scene))) = None"
proof -
  have g: "gameObject (Displacement obj) = obj" for obj
    by (simp add: Displacement_def setTexture_def BaseFX_def Let_def split: option.split)
  have h0: "textures (scene (sprite_ref webgl_scene)) ''__WHITE'' = Some \<lparr>frame.glTexture = Some 1\<rparr>"
    by (simp add: sprite_ref_def sprite_def webgl_scene_def game_object.defs)
  have h1: "textures (scene (sprite_ref headless_scene)) ''__WHITE'' = None"
    by (simp add: sprite_ref_def sprite_def headless_scene_def game_object.defs)
  have h2: "textures (scene (gameObject (Displacement (sprite_ref webgl_scene)))) ''noise'' = None"
    by (simp add: g sprite_ref_def sprite_def webgl_scene_def game_object.defs)
  have h3: "textures (scene (gameObject (Displacement (sprite_ref headless_scene)))) ''noise'' = None"
    by (simp add: g sprite_ref_def sprite_def headless_scene_def game_object.defs)
  note a = displacement_missing_frame [of "sprite_ref webgl_scene" "\<lparr>frame.glTexture = Some 1\<rparr>"
      "Displacement (sprite_ref webgl_scene)" "''noise''"]
  note b = displacement_missing_frame [of "sprite_ref headless_scene" "\<lparr>frame.glTexture = Some 1\<rparr>"
      "Displacement (sprite_ref headless_scene)" "''noise''"]
  from a h0 have a1: "displacement.glTexture (Displacement (sprite_ref webgl_scene)) = Some 1"
    by simp
  from a h2 have a2: "setTexture ''noise'' (Displacement (sprite_ref webgl_scene))
      = Displacement (sprite_ref webgl_scene)"
    by simp
  from b h1 have b1: "displacement.glTexture (Displacement (sprite_ref headless_scene)) = None"
    by simp
  from b h3 b1
  have b2: "displacement.glTexture (setTexture ''noise'' (Displacement (sprite_ref headless_scene))) = None"
    by simp
  from h0 a1 h1 b1 h2 a2 h3 b2 show ?thesis by (intro conjI)
qed

subsection \<open>Disabling\<close>

text \<open>C6: \<open>disableFX(clear)\<close> calls \<open>resetPipeline()\<close> in every case and then \<open>clearFX()\<close>
  exactly when \<open>clear\<close> is true.  With the \<open>resetPipeline\<close> of the Pipeline component the
  object's pipeline becomes its default pipeline, and \<open>disableFX(false)\<close> changes nothing
  else: the descriptor list is as before.\<close>

theorem disableFX_resets_pipeline:
  "disableFX rp cf clear this = (if clear then cf (rp this) else rp this) \<and>
   pipeline (disableFX resetPipeline clearFX clear this) = defaultPipeline this \<and>
   disableFX resetPipeline clearFX False this = this\<lparr>pipeline := defaultPipeline this\<rparr> \<and>
   fx (disableFX resetPipeline clearFX False this) = fx this"
  by (simp add: disableFX_def resetPipeline_def clearFX_def Let_def)



section \<open>Properties of the number model\<close>

subsection \<open>The binary exponent\<close>

lemma bitlen_powi_bounds:
  fixes n :: int
  assumes "0 < n"
  shows "2 powi (bitlen n - 1) \<le> (of_int n :: rat)" and "(of_int n :: rat) < 2 powi bitlen n"
proof -
  from bitlen_bounds [OF assms]
  have l: "(2::int) ^ nat (bitlen n - 1) \<le> n" and u: "n < 2 ^ nat (bitlen n)" by simp_all
  have b: "0 < bitlen n"
  proof (rule ccontr)
    assume "\<not> 0 < bitlen n"
    then have "nat (bitlen n) = 0" by simp
    with u assms show False by simp
  qed
  have "(of_int ((2::int) ^ nat (bitlen n - 1)) :: rat) \<le> of_int n"
    using l by (simp only: of_int_le_iff)
  then show "2 powi (bitlen n - 1) \<le> (of_int n :: rat)"
    using b by (simp add: power_int_def)
  have "(of_int n :: rat) < of_int ((2::int) ^ nat (bitlen n))"
    using u by (simp only: of_int_less_iff)
  then show "(of_int n :: rat) < 2 powi bitlen n"
    using b by (simp add: power_int_def)
qed

lemma frac_powi_bounds:
  fixes p q :: int
  assumes "0 < p" "0 < q"
  shows "2 powi (bitlen p - bitlen q - 1) \<le> (of_int p / of_int q :: rat)"
    and "(of_int p / of_int q :: rat) < 2 powi (bitlen p - bitlen q + 1)"
proof -
  let ?P = "of_int p :: rat" and ?Q = "of_int q :: rat"
  have Q: "0 < ?Q" and P: "0 < ?P" using assms by simp_all
  note bp = bitlen_powi_bounds [OF assms(1)] and bq = bitlen_powi_bounds [OF assms(2)]
  have "2 powi (bitlen p - bitlen q - 1) * ?Q \<le> 2 powi (bitlen p - bitlen q - 1) * 2 powi bitlen q"
    using bq(2) by (intro mult_left_mono) simp_all
  also have "\<dots> = 2 powi (bitlen p - 1)"
    by (simp flip: power_int_add)
  also have "\<dots> \<le> ?P" by (rule bp(1))
  finally show "2 powi (bitlen p - bitlen q - 1) \<le> ?P / ?Q"
    using Q by (simp add: pos_le_divide_eq)
  have "?P < 2 powi bitlen p" by (rule bp(2))
  also have "\<dots> = 2 powi (bitlen p - bitlen q + 1) * 2 powi (bitlen q - 1)"
    by (simp flip: power_int_add)
  also have "\<dots> \<le> 2 powi (bitlen p - bitlen q + 1) * ?Q"
    using bq(1) by (intro mult_left_mono) simp_all
  finally show "?P / ?Q < 2 powi (bitlen p - bitlen q + 1)"
    using Q by (simp add: pos_divide_less_eq)
qed

lemma ilog2_bounds:
  assumes "v \<noteq> 0"
  shows "2 powi ilog2 v \<le> \<bar>v\<bar>" and "\<bar>v\<bar> < 2 powi (ilog2 v + 1)"
proof -
  obtain p q where pq: "quotient_of \<bar>v\<bar> = (p, q)" by force
  have q: "0 < q" using pq by (rule quotient_of_denom_pos)
  have v: "\<bar>v\<bar> = of_int p / of_int q" using pq by (rule quotient_of_div)
  have "0 < \<bar>v\<bar>" using assms by simp
  then have p: "0 < p" using q unfolding v by (simp add: zero_less_divide_iff)
  note fb = frac_powi_bounds [OF p q, folded v]
  show "2 powi ilog2 v \<le> \<bar>v\<bar>"
    using fb(1) by (simp add: ilog2_def pq Let_def)
  show "\<bar>v\<bar> < 2 powi (ilog2 v + 1)"
    using fb(2) by (auto simp add: ilog2_def pq Let_def not_le)
qed

lemma powi2_less_imp_less:
  assumes "(2::rat) powi a < 2 powi b"
  shows "a < b"
proof (rule ccontr)
  assume "\<not> a < b"
  then have "b \<le> a" by simp
  then have "(2::rat) powi b \<le> 2 powi a" by (rule power_int_increasing) simp
  with assms show False by simp
qed

lemma ilog2_unique:
  assumes "2 powi e \<le> \<bar>v\<bar>" and "\<bar>v\<bar> < 2 powi (e + 1)"
  shows "ilog2 v = e"
proof -
  have nz: "v \<noteq> 0"
  proof
    assume "v = 0"
    then have "2 powi e \<le> (0::rat)" using assms(1) by simp
    moreover have "(0::rat) < 2 powi e" by (simp add: zero_less_power_int)
    ultimately show False by linarith
  qed
  note b = ilog2_bounds [OF nz]
  have "(2::rat) powi e < 2 powi (ilog2 v + 1)"
    using assms(1) b(2) by (rule le_less_trans)
  then have 1: "e < ilog2 v + 1" by (rule powi2_less_imp_less)
  have "(2::rat) powi ilog2 v < 2 powi (e + 1)"
    using b(1) assms(2) by (rule le_less_trans)
  then have 2: "ilog2 v < e + 1" by (rule powi2_less_imp_less)
  from 1 2 show ?thesis by simp
qed

subsection \<open>Rounding a fraction of integers\<close>

lemma round_half_even_frac:
  assumes "0 < b"
  shows "round_half_even (of_int a / of_int b) = round_half_even_frac a b"
proof -
  let ?B = "of_int b :: rat"
  have B: "0 < ?B" using assms by simp
  have fl: "\<lfloor>of_int a / ?B\<rfloor> = a div b" by (rule floor_divide_of_int_eq)
  have "(of_int a :: rat) = of_int (b * (a div b) + a mod b)" by simp
  also have "\<dots> = ?B * of_int (a div b) + of_int (a mod b)" by (simp only: of_int_add of_int_mult)
  finally have fr: "of_int a / ?B - of_int (a div b) = of_int (a mod b) / ?B"
    using B by (simp add: field_simps)
  have lt: "of_int (a mod b) / ?B < 1 / 2 \<longleftrightarrow> 2 * (a mod b) < b"
  proof -
    have "of_int (a mod b) / ?B < 1 / 2 \<longleftrightarrow> (of_int (2 * (a mod b)) :: rat) < ?B"
      using B by (simp add: field_simps)
    then show ?thesis by (simp only: of_int_less_iff)
  qed
  have gt: "1 / 2 < of_int (a mod b) / ?B \<longleftrightarrow> b < 2 * (a mod b)"
  proof -
    have "1 / 2 < of_int (a mod b) / ?B \<longleftrightarrow> ?B < (of_int (2 * (a mod b)) :: rat)"
      using B by (simp add: field_simps)
    then show ?thesis by (simp only: of_int_less_iff)
  qed
  show ?thesis
    unfolding round_half_even_def round_half_even_frac_def Let_def fl fr lt gt ..
qed

lemma frac_cmp:
  fixes P Q A :: rat
  assumes "0 < Q" "0 < A"
  shows "A \<le> P / Q \<longleftrightarrow> Q * A \<le> P" and "P / Q < A \<longleftrightarrow> P < Q * A"
    and "1 / A \<le> P / Q \<longleftrightarrow> Q \<le> P * A" and "P / Q < 1 / A \<longleftrightarrow> P * A < Q"
  using assms by (simp_all add: field_simps)

lemma powi2_nonneg: "0 \<le> i \<Longrightarrow> (2::rat) powi i = 2 ^ nat i"
  by (simp add: power_int_def)

lemma powi2_nonpos: "i \<le> 0 \<Longrightarrow> (2::rat) powi i = 1 / 2 ^ nat (- i)"
  by (cases "i = 0") (simp_all add: power_int_def power_one_over inverse_eq_divide)

lemma in_binade_ilog2:
  assumes "0 < p" "0 < q" "in_binade p q e"
  shows "ilog2 (of_int p / of_int q) = e"
proof -
  let ?v = "of_int p / of_int q :: rat"
  have Q: "0 < (of_int q :: rat)" and P: "0 < (of_int p :: rat)" using assms by simp_all
  have v: "\<bar>?v\<bar> = ?v" using P Q by simp
  have "2 powi e \<le> ?v \<and> ?v < 2 powi (e + 1)"
  proof (cases "0 \<le> e")
    case True
    with assms(3) have "q * 2 ^ nat e \<le> p" and "p < q * 2 ^ nat (e + 1)"
      by (simp_all add: in_binade_def)
    then have "(of_int (q * 2 ^ nat e) :: rat) \<le> of_int p"
      and "(of_int p :: rat) < of_int (q * 2 ^ nat (e + 1))"
      by (simp_all only: of_int_le_iff of_int_less_iff)
    then have "of_int q * 2 ^ nat e \<le> (of_int p :: rat)"
      and "(of_int p :: rat) < of_int q * 2 ^ nat (e + 1)"
      by simp_all
    then have "2 ^ nat e \<le> ?v" and "?v < 2 ^ nat (e + 1)"
      using Q by (simp_all only: frac_cmp zero_less_power zero_less_numeral)
    with True show ?thesis
      by (simp only: powi2_nonneg [of e] powi2_nonneg [of "e + 1"])
  next
    case False
    with assms(3) have "q \<le> p * 2 ^ nat (- e)" and "p * 2 ^ nat (- e - 1) < q"
      by (simp_all add: in_binade_def)
    then have "(of_int q :: rat) \<le> of_int (p * 2 ^ nat (- e))"
      and "(of_int (p * 2 ^ nat (- e - 1)) :: rat) < of_int q"
      by (simp_all only: of_int_le_iff of_int_less_iff)
    then have "(of_int q :: rat) \<le> of_int p * 2 ^ nat (- e)"
      and "(of_int p :: rat) * 2 ^ nat (- e - 1) < of_int q"
      by simp_all
    then have "1 / 2 ^ nat (- e) \<le> ?v" and "?v < 1 / 2 ^ nat (- e - 1)"
      using Q by (simp_all only: frac_cmp zero_less_power zero_less_numeral)
    moreover have "(2::rat) powi e = 1 / 2 ^ nat (- e)"
      using False by (intro powi2_nonpos) simp
    moreover have "(2::rat) powi (e + 1) = 1 / 2 ^ nat (- e - 1)"
      using False powi2_nonpos [of "e + 1"] by (simp add: algebra_simps)
    ultimately show ?thesis by (simp only:)
  qed
  then show ?thesis
    using ilog2_unique [of e ?v] by (simp only: v)
qed

lemma fl_frac:
  assumes "0 < p" "0 < q" "in_binade p q e"
  shows "fl (of_int p / of_int q) = of_int (fst (fl_frac p q e)) * 2 powi snd (fl_frac p q e)"
proof -
  let ?v = "of_int p / of_int q :: rat"
  define s where "s = max (e - 52) (- 1074)"
  have nz: "?v \<noteq> 0" using assms by simp
  have f: "fl_frac p q e = (if 0 \<le> s then round_half_even_frac p (q * 2 ^ nat s)
      else round_half_even_frac (p * 2 ^ nat (- s)) q, s)"
    by (simp only: fl_frac_def Let_def s_def)
  have m: "round_half_even (?v / 2 powi s) = fst (fl_frac p q e)"
  proof (cases "0 \<le> s")
    case True
    have "?v / 2 powi s = of_int p / of_int (q * 2 ^ nat s)"
      using True by (simp add: power_int_def)
    moreover have "0 < q * 2 ^ nat s" using assms by simp
    ultimately have "round_half_even (?v / 2 powi s) = round_half_even_frac p (q * 2 ^ nat s)"
      by (simp only: round_half_even_frac)
    with True show ?thesis by (simp only: f if_True fst_conv)
  next
    case False
    have "?v / 2 powi s = of_int (p * 2 ^ nat (- s)) / of_int q"
      using False by (simp add: power_int_def field_simps)
    then have "round_half_even (?v / 2 powi s) = round_half_even_frac (p * 2 ^ nat (- s)) q"
      using assms(2) by (simp only: round_half_even_frac)
    with False show ?thesis by (simp only: f if_False fst_conv)
  qed
  have "fl ?v = of_int (round_half_even (?v / 2 powi s)) * 2 powi s"
    using nz by (simp only: fl_def in_binade_ilog2 [OF assms] Let_def s_def if_False)
  also have "\<dots> = of_int (fst (fl_frac p q e)) * 2 powi snd (fl_frac p q e)"
    by (simp only: m f snd_conv)
  finally show ?thesis .
qed

subsection \<open>Integers and bytes\<close>

lemma round_half_even_frac_1: "round_half_even_frac a 1 = a"
  by (simp add: round_half_even_frac_def)

lemma fl_of_int:
  assumes "0 \<le> n" "n < 2 ^ 53"
  shows "fl (of_int n) = of_int n"
proof (cases "n = 0")
  case True
  then show ?thesis by (simp add: fl_def)
next
  case False
  with assms have n: "0 < n" by simp
  define e where "e = bitlen n - 1"
  from bitlen_bounds [OF n] have lo: "2 ^ nat e \<le> n" and hi: "n < 2 ^ nat (e + 1)"
    by (simp_all add: e_def)
  have e0: "0 \<le> e"
    using n by (simp add: e_def bitlen_def floorlog_def)
  have e52: "e \<le> 52"
  proof (rule ccontr)
    assume "\<not> e \<le> 52"
    then have "53 \<le> nat e" by simp
    then have "(2::int) ^ 53 \<le> 2 ^ nat e" by (intro power_increasing) simp_all
    with lo assms(2) show False by simp
  qed
  have b: "in_binade n 1 e"
    using e0 lo hi by (simp add: in_binade_def)
  have f: "fl_frac n 1 e = (n * 2 ^ nat (52 - e), e - 52)"
    using e52 e0 by (auto simp add: fl_frac_def Let_def round_half_even_frac_1 max_def)
  have "fl (of_int n / of_int 1) = of_int (n * 2 ^ nat (52 - e)) * 2 powi (e - 52)"
    using fl_frac [OF n _ b] by (simp add: f)
  also have "\<dots> = of_int n"
    using e52 by (simp add: powi2_nonpos)
  finally show ?thesis by simp
qed

lemma byte_ok_roundtrip:
  assumes "0 < k" "byte_ok k e e'"
  shows "fl (fl (of_int k / 255) * 255) = of_int k"
proof -
  obtain m s where ms: "fl_frac k 255 e = (m, s)" by force
  obtain m' s' where ms': "fl_frac (m * 255) (2 ^ nat (- s)) e' = (m', s')" by force
  from assms(2) have b1: "in_binade k 255 e" and m: "0 < m" and s: "s \<le> 0"
    and b2: "in_binade (m * 255) (2 ^ nat (- s)) e'" and s': "s' \<le> 0"
    and m': "m' = k * 2 ^ nat (- s')"
    by (simp_all add: byte_ok_def ms ms')
  have "fl (of_int k / of_int 255) = of_int m * 2 powi s"
    using fl_frac [OF assms(1) _ b1] by (simp add: ms)
  then have 1: "fl (of_int k / 255) = of_int m / 2 ^ nat (- s)"
    using s by (simp add: powi2_nonpos)
  have 2: "of_int m / 2 ^ nat (- s) * 255 = (of_int (m * 255) / of_int (2 ^ nat (- s)) :: rat)"
    by simp
  have "fl (of_int (m * 255) / of_int (2 ^ nat (- s))) = of_int m' * 2 powi s'"
    using fl_frac [OF _ _ b2] m by (simp add: ms')
  also have "\<dots> = of_int k"
    using s' by (simp add: m' powi2_nonpos)
  finally show ?thesis by (simp only: 1 2)
qed

text \<open>Dividing a byte by 255 and multiplying the rounded quotient by 255 rounds back
  to the byte.  The quotient is off by less than half a unit in the last place, the
  product therefore by less than 127 units of a grid 256 times finer than that of the
  byte, so that it rounds to the byte; only a power of two, with the finer grid below it,
  and 255 itself are evaluated.\<close>

lemma round_half_even_frac_255:
  "\<bar>255 * round_half_even_frac a 255 - a\<bar> \<le> 127"
proof -
  define n r where "n = a div 255" and "r = a mod 255"
  have a: "a = 255 * n + r" and r: "0 \<le> r" "r < 255"
    by (simp_all add: n_def r_def)
  have "round_half_even_frac a 255 =
      (if 2 * r < 255 then n else if 255 < 2 * r then n + 1 else if even n then n else n + 1)"
    by (simp only: round_half_even_frac_def Let_def n_def r_def)
  with a r show ?thesis by (auto split: if_splits)
qed

lemma round_half_even_frac_cancel:
  assumes "0 < c"
  shows "round_half_even_frac (a * c) (b * c) = round_half_even_frac a b"
proof -
  have d: "(a * c) div (b * c) = a div b" and m: "(a * c) mod (b * c) = (a mod b) * c"
    using assms by simp_all
  have l: "2 * ((a mod b) * c) < b * c \<longleftrightarrow> 2 * (a mod b) < b"
    and g: "b * c < 2 * ((a mod b) * c) \<longleftrightarrow> b < 2 * (a mod b)"
    using assms mult_less_cancel_right_pos [of c "2 * (a mod b)" b]
      mult_less_cancel_right_pos [of c b "2 * (a mod b)"]
    by (simp_all add: mult.assoc)
  show ?thesis
    by (simp only: round_half_even_frac_def Let_def d m l g)
qed

lemma divmod_256:
  fixes q r :: int
  assumes "0 \<le> r" "r < 256"
  shows "(q * 256 + r) div 256 = q" and "(q * 256 + r) mod 256 = r"
  using assms by simp_all

lemma round_half_even_frac_256:
  assumes "\<bar>d\<bar> \<le> 127"
  shows "round_half_even_frac (n * 256 + d) 256 = n"
proof (cases "0 \<le> d")
  case True
  with assms have "(n * 256 + d) div 256 = n" "(n * 256 + d) mod 256 = d"
    by simp_all
  with assms True show ?thesis
    by (simp add: round_half_even_frac_def Let_def)
next
  case False
  define d' where "d' = 256 + d"
  have e: "n * 256 + d = (n - 1) * 256 + d'" by (simp add: d'_def algebra_simps)
  have d': "129 \<le> d'" "d' < 256" using False assms by (simp_all add: d'_def)
  then have "((n - 1) * 256 + d') div 256 = n - 1" "((n - 1) * 256 + d') mod 256 = d'"
    by (simp_all only: divmod_256)
  with d' show ?thesis
    by (simp only: e round_half_even_frac_def Let_def) simp
qed


lemma byte_general:
  fixes j :: nat and k :: int
  assumes j: "j \<le> 7" and k: "2 ^ j < k" "k < 2 ^ Suc j" "k < 255"
  shows "fl (fl (of_int k / 255) * 255) = of_int k"
proof -
  define B :: int where "B = 2 ^ (52 - j)"
  define C :: int where "C = 256 * B"
  define m where "m = round_half_even_frac (k * C) 255"
  have B: "0 < B" by (simp add: B_def)
  have C: "C = 2 ^ (60 - j)"
  proof -
    have "60 - j = 8 + (52 - j)" using j by simp
    then show ?thesis by (simp only: C_def B_def power_add) simp
  qed
  have Cj: "2 ^ j * C = 2 ^ 60"
  proof -
    have "j + (60 - j) = 60" using j by simp
    then show ?thesis by (simp only: C power_add [symmetric])
  qed
  have Cge: "256 \<le> C" using B by (simp add: C_def)
  have kpos: "0 < k"
  proof -
    have "(0::int) < 2 ^ j" by simp
    with k(1) show ?thesis by linarith
  qed
  have err: "\<bar>255 * m - k * C\<bar> \<le> 127"
    unfolding m_def by (rule round_half_even_frac_255)
  have lo: "2 ^ 60 + C \<le> k * C"
  proof -
    from k(1) have "2 ^ j + 1 \<le> k" by simp
    then have "(2 ^ j + 1) * C \<le> k * C" using Cge by (intro mult_right_mono) simp_all
    then have "2 ^ j * C + C \<le> k * C" by (simp only: distrib_right mult_1)
    then show ?thesis by (simp only: Cj)
  qed
  have hi: "k * C \<le> 2 ^ 61 - C"
  proof -
    from k(2) have "k \<le> 2 * 2 ^ j - 1" by simp
    then have "k * C \<le> (2 * 2 ^ j - 1) * C" using Cge by (intro mult_right_mono) simp_all
    also have "\<dots> = 2 * (2 ^ j * C) - C" by (simp add: algebra_simps)
    also have "\<dots> = 2 ^ 61 - C" by (simp only: Cj) simp
    finally show ?thesis .
  qed
  have mpos: "0 < m" using err lo Cge by simp
  have b1: "in_binade k 255 (int j - 8)"
  proof -
    from j have "j = 0 \<or> j = 1 \<or> j = 2 \<or> j = 3 \<or> j = 4 \<or> j = 5 \<or> j = 6 \<or> j = 7" by arith
    then show ?thesis using k by (elim disjE) (simp_all add: in_binade_def)
  qed
  have f1: "fl_frac k 255 (int j - 8) = (m, int j - 60)"
  proof -
    have s: "max (int j - 8 - 52) (- 1074) = int j - 60" by simp
    have n: "nat (- (int j - 60)) = 60 - j" using j by simp
    have neg: "\<not> 0 \<le> int j - 60" using j by simp
    show ?thesis
      by (simp only: fl_frac_def Let_def s n neg if_False C [symmetric] m_def)
  qed
  have y: "fl (of_int k / 255) = of_int m / of_int C"
  proof -
    have "fl (of_int k / of_int 255) = of_int m * 2 powi (int j - 60)"
      using fl_frac [OF kpos _ b1] by (simp add: f1)
    moreover have "(2::rat) powi (int j - 60) = 1 / 2 ^ (60 - j)"
      using j powi2_nonpos [of "int j - 60"] by (simp add: nat_diff_distrib')
    ultimately show ?thesis by (simp add: C)
  qed
  have b2: "in_binade (m * 255) C (int j)"
  proof -
    have "C * 2 ^ j \<le> m * 255" and "m * 255 < C * 2 ^ Suc j"
      using err lo hi Cge Cj by (simp_all add: mult.commute)
    then show ?thesis by (simp add: in_binade_def nat_add_distrib)
  qed
  have f2: "fl_frac (m * 255) C (int j) = (k * B, int j - 52)"
  proof -
    have s: "max (int j - 52) (- 1074) = int j - 52" by simp
    have n: "nat (- (int j - 52)) = 52 - j" using j by simp
    have neg: "\<not> 0 \<le> int j - 52" using j by simp
    have e: "m * 255 = (k * B) * 256 + (255 * m - k * C)" by (simp add: C_def)
    have "round_half_even_frac (m * 255 * B) (256 * B) = round_half_even_frac (m * 255) 256"
      using B by (rule round_half_even_frac_cancel)
    also have "\<dots> = round_half_even_frac ((k * B) * 256 + (255 * m - k * C)) 256"
      by (subst e) (rule refl)
    also have "\<dots> = k * B"
      using err by (rule round_half_even_frac_256)
    finally have "round_half_even_frac (m * 255 * B) (256 * B) = k * B" .
    then have "round_half_even_frac (m * 255 * 2 ^ (52 - j)) C = k * B"
      by (simp only: B_def C_def)
    then show ?thesis
      by (simp only: fl_frac_def Let_def s n neg if_False)
  qed
  have "fl (of_int (m * 255) / of_int C) = of_int (k * B) * 2 powi (int j - 52)"
    using fl_frac [OF _ _ b2] mpos Cge by (simp add: f2)
  moreover have "(2::rat) powi (int j - 52) = 1 / of_int B"
    using j powi2_nonpos [of "int j - 52"] by (simp add: nat_diff_distrib' B_def)
  ultimately have "fl (of_int (m * 255) / of_int C) = of_int k"
    using B by simp
  moreover have "of_int m / of_int C * 255 = (of_int (m * 255) / of_int C :: rat)" by simp
  ultimately show ?thesis by (simp only: y)
qed


lemma special_bytes_check: "\<forall>k \<in> set [1, 2, 4, 8, 16, 32, 64, 128, 255]. byte_check k"
  by code_simp

lemma byte_special:
  assumes "k \<in> set [1, 2, 4, 8, 16, 32, 64, 128, 255]"
  shows "fl (fl (of_int k / 255) * 255) = of_int k"
proof -
  from special_bytes_check assms have "byte_check k" by (rule bspec)
  then obtain e e' where "byte_ok k e e'"
    by (auto simp add: byte_check_def Let_def)
  moreover from assms have "0 < k" by auto
  ultimately show ?thesis by (intro byte_ok_roundtrip)
qed

lemma byte_fl_roundtrip:
  assumes "1 \<le> k" "k \<le> 255"
  shows "fl (fl (of_int k / 255) * 255) = of_int k"
proof (cases "k \<in> set [1, 2, 4, 8, 16, 32, 64, 128, 255]")
  case True
  then show ?thesis by (rule byte_special)
next
  case False
  then have ne: "k \<noteq> 1" "k \<noteq> 2" "k \<noteq> 4" "k \<noteq> 8" "k \<noteq> 16" "k \<noteq> 32" "k \<noteq> 64"
    "k \<noteq> 128" "k \<noteq> 255"
    by simp_all
  consider (a) "k < 4" | (b) "4 \<le> k \<and> k < 8" | (c) "8 \<le> k \<and> k < 16" | (d) "16 \<le> k \<and> k < 32"
    | (e) "32 \<le> k \<and> k < 64" | (f) "64 \<le> k \<and> k < 128" | (g) "128 \<le> k"
    by arith
  then show ?thesis
  proof cases
    case a
    with assms(1) ne(1,2) have "2 < k" "k < 4" by simp_all
    then show ?thesis using byte_general [of 1 k] by simp
  next
    case b
    with ne(3) have "4 < k" "k < 8" by simp_all
    then show ?thesis using byte_general [of 2 k] by simp
  next
    case c
    with ne(4) have "8 < k" "k < 16" by simp_all
    then show ?thesis using byte_general [of 3 k] by simp
  next
    case d
    with ne(5) have "16 < k" "k < 32" by simp_all
    then show ?thesis using byte_general [of 4 k] by simp
  next
    case e
    with ne(6) have "32 < k" "k < 64" by simp_all
    then show ?thesis using byte_general [of 5 k] by simp
  next
    case f
    with ne(7) have "64 < k" "k < 128" by simp_all
    then show ?thesis using byte_general [of 6 k] by simp
  next
    case g
    with ne(8,9) assms(2) have "128 < k" "k < 255" by simp_all
    then show ?thesis using byte_general [of 7 k] by simp
  qed
qed

lemma byte_roundtrip:
  assumes "0 \<le> k" "k \<le> 255"
  shows "js_mul (js_div (of_int k) 255) 255 = of_int k"
proof (cases "k = 0")
  case True
  then show ?thesis by (simp add: js_mul_def js_div_def fl_def)
next
  case False
  with assms have "1 \<le> k" by simp
  from byte_fl_roundtrip [OF this assms(2)] show ?thesis
    by (simp add: js_mul_def js_div_def)
qed


section \<open>Properties of the colour accessors\<close>

lemma ToInt32_of_int: "ToInt32 (of_int i) = word_of_int i"
proof -
  have "(if (of_int i :: rat) < 0 then - \<lfloor>- (of_int i :: rat)\<rfloor> else \<lfloor>(of_int i :: rat)\<rfloor>) = i"
    by (simp flip: of_int_minus)
  then show ?thesis by (simp only: ToInt32_def)
qed

lemma ToInt32_of_int32: "ToInt32 (of_int32 w) = w"
  by (simp only: of_int32_def ToInt32_of_int) simp

lemma ToInt32_numeral: "ToInt32 (numeral n) = numeral n"
  using ToInt32_of_int [of "numeral n"] by simp

lemma ToInt32_0: "ToInt32 0 = 0"
  using ToInt32_of_int [of 0] by simp

lemma shift_count_16: "shift_count 16 = 16" and shift_count_8: "shift_count 8 = 8"
  by (simp_all add: shift_count_def ToInt32_numeral)

lemma mask8: "(255 :: 32 word) = mask 8" and mask24: "(16777215 :: 32 word) = mask 24"
  by (simp_all add: mask_eq_exp_minus_1)

lemma channel_int:
  fixes w :: "32 word"
  assumes "n \<le> 24"
  shows "sint (signed_drop_bit n w AND 255) = take_bit 8 (drop_bit n (uint w))"
  unfolding mask8 using assms
  by (intro bit_eqI) (auto simp add: bit_simps)

lemma channel_int_0:
  fixes w :: "32 word"
  shows "sint (w AND 255) = take_bit 8 (uint w)"
  using channel_int [of 0 w] by simp

lemma bytes_sum:
  fixes u :: int
  shows "take_bit 8 (drop_bit 16 u) * 65536 + take_bit 8 (drop_bit 8 u) * 256 + take_bit 8 u
    = take_bit 24 u"
proof -
  have 1: "u mod (65536 * 256) = 65536 * (u div 65536 mod 256) + u mod 65536"
    by (rule zmod_zmult2_eq) simp
  have 2: "u mod (256 * 256) = 256 * (u div 256 mod 256) + u mod 256"
    by (rule zmod_zmult2_eq) simp
  from 1 2 show ?thesis
    by (simp add: take_bit_eq_mod drop_bit_eq_div)
qed

lemma of_int32_word_of_int:
  assumes "- (2 ^ 31) \<le> m" "m < 2 ^ 31"
  shows "of_int32 (word_of_int m) = of_int m"
proof -
  have "sint (word_of_int m :: 32 word) = signed_take_bit 31 m"
    by (simp add: sint_sbintrunc')
  also have "\<dots> = m" using assms by (rule signed_take_bit_int_eq_self)
  finally show ?thesis by (simp only: of_int32_def)
qed

lemma js_shl_byte:
  assumes "0 \<le> k" "k \<le> 255"
  shows "js_shl (of_int k) 16 = of_int (k * 65536)" and "js_shl (of_int k) 8 = of_int (k * 256)"
proof -
  have "push_bit 16 (word_of_int k :: 32 word) = word_of_int (k * 65536)"
    and "push_bit 8 (word_of_int k :: 32 word) = word_of_int (k * 256)"
    by (simp_all add: push_bit_eq_mult)
  then show "js_shl (of_int k) 16 = of_int (k * 65536)"
    and "js_shl (of_int k) 8 = of_int (k * 256)"
    using assms
    by (simp_all only: js_shl_def shift_count_16 shift_count_8 ToInt32_of_int)
      (rule of_int32_word_of_int; simp)+
qed

lemma js_or_0:
  assumes "0 \<le> k" "k \<le> 255"
  shows "js_or (of_int k) 0 = of_int k"
  using assms by (simp add: js_or_def ToInt32_of_int ToInt32_0 of_int32_word_of_int)

lemma js_add_int:
  assumes "0 \<le> a + b" "a + b < 2 ^ 53"
  shows "js_add (of_int a) (of_int b) = of_int (a + b)"
  using fl_of_int [OF assms] by (simp add: js_add_def)

lemma js_channel:
  "js_and (js_sar v 16) 255 = of_int (take_bit 8 (drop_bit 16 (uint (ToInt32 v))))"
  "js_and (js_sar v 8) 255 = of_int (take_bit 8 (drop_bit 8 (uint (ToInt32 v))))"
  "js_and v 255 = of_int (take_bit 8 (uint (ToInt32 v)))"
proof -
  have s16: "ToInt32 (js_sar v 16) = signed_drop_bit 16 (ToInt32 v)"
    and s8: "ToInt32 (js_sar v 8) = signed_drop_bit 8 (ToInt32 v)"
    by (simp_all only: js_sar_def shift_count_16 shift_count_8 ToInt32_of_int32)
  have c16: "sint (signed_drop_bit 16 (ToInt32 v) AND 255) = take_bit 8 (drop_bit 16 (uint (ToInt32 v)))"
    and c8: "sint (signed_drop_bit 8 (ToInt32 v) AND 255) = take_bit 8 (drop_bit 8 (uint (ToInt32 v)))"
    by (rule channel_int; simp)+
  show "js_and (js_sar v 16) 255 = of_int (take_bit 8 (drop_bit 16 (uint (ToInt32 v))))"
    by (simp only: js_and_def s16 ToInt32_numeral of_int32_def c16)
  show "js_and (js_sar v 8) 255 = of_int (take_bit 8 (drop_bit 8 (uint (ToInt32 v))))"
    by (simp only: js_and_def s8 ToInt32_numeral of_int32_def c8)
  show "js_and v 255 = of_int (take_bit 8 (uint (ToInt32 v)))"
    by (simp only: js_and_def ToInt32_numeral of_int32_def channel_int_0)
qed

lemma get_color_update:
  "get_color (this\<lparr>glcolor := (c0, c1, c2)\<rparr>) =
     js_add (js_add (js_shl (js_mul c0 255) 16) (js_shl (js_mul c1 255) 8))
            (js_or (js_mul c2 255) 0)"
  by (simp add: get_color_def)

lemma get_color_bytes:
  assumes "0 \<le> k0" "k0 \<le> 255" "0 \<le> k1" "k1 \<le> 255" "0 \<le> k2" "k2 \<le> 255"
  shows "get_color (this\<lparr>glcolor := (js_div (of_int k0) 255, js_div (of_int k1) 255,
      js_div (of_int k2) 255)\<rparr>) = of_int (k0 * 65536 + k1 * 256 + k2)"
proof -
  have a: "js_add (of_int (k0 * 65536)) (of_int (k1 * 256)) = of_int (k0 * 65536 + k1 * 256)"
    using assms by (intro js_add_int) simp_all
  have b: "js_add (of_int (k0 * 65536 + k1 * 256)) (of_int k2) = of_int (k0 * 65536 + k1 * 256 + k2)"
    using assms by (intro js_add_int) simp_all
  show ?thesis
    by (simp only: get_color_update byte_roundtrip [OF assms(1,2)] byte_roundtrip [OF assms(3,4)]
        byte_roundtrip [OF assms(5,6)] js_shl_byte(1) [OF assms(1,2)] js_shl_byte(2) [OF assms(3,4)]
        js_or_0 [OF assms(5,6)] a b)
qed

lemma take_bit_8_bounds: "0 \<le> take_bit 8 (u :: int)" "take_bit 8 (u :: int) \<le> 255"
  using take_bit_int_less_exp [of 8 u] by simp_all

lemma get_color_set_color:
  "get_color (set_color v this) = of_int (take_bit 24 (uint (ToInt32 v)))"
proof -
  let ?u = "uint (ToInt32 v)"
  have "get_color (set_color v this) =
      of_int (take_bit 8 (drop_bit 16 ?u) * 65536 + take_bit 8 (drop_bit 8 ?u) * 256 + take_bit 8 ?u)"
    by (simp only: set_color_def js_channel(1,2), simp only: js_channel(3),
        (rule get_color_bytes; rule take_bit_8_bounds))
  then show ?thesis by (simp only: bytes_sum)
qed

lemma js_div_self: "js_div 255 255 = 1" and js_div_zero: "js_div 0 255 = 0"
  using fl_of_int [of 1] by (simp_all add: js_div_def fl_def)

lemma js_and_mask24: "js_and v 16777215 = of_int (take_bit 24 (uint (ToInt32 v)))"
proof -
  have "sint (w AND mask 24) = take_bit 24 (uint w)" for w :: "32 word"
    by (intro bit_eqI) (auto simp add: bit_simps)
  then show ?thesis
    by (simp only: js_and_def ToInt32_numeral of_int32_def mask24)
qed

lemma set_color_channels:
  "set_color v this = this\<lparr>glcolor :=
     (js_div (of_int (take_bit 8 (drop_bit 16 (uint (ToInt32 v))))) 255,
      js_div (of_int (take_bit 8 (drop_bit 8 (uint (ToInt32 v))))) 255,
      js_div (of_int (take_bit 8 (uint (ToInt32 v)))) 255)\<rparr>"
  by (simp only: set_color_def js_channel(1,2), simp only: js_channel(3))

lemma glcolor_set_color_red: "glcolor (set_color 16711680 this) = (1, 0, 0)"
proof -
  have "uint (ToInt32 16711680) = 16711680"
    by (simp add: ToInt32_numeral)
  then show ?thesis
    by (simp add: set_color_channels js_div_self js_div_zero drop_bit_eq_div take_bit_eq_mod)
qed

lemma get_color_white: "get_color (this\<lparr>glcolor := (1, 1, 1)\<rparr>) = 16777215"
  using get_color_bytes [of 255 255 255 this] by (simp add: js_div_self)

lemma get_color_black: "get_color (this\<lparr>glcolor := (0, 0, 0)\<rparr>) = 0"
  using get_color_bytes [of 0 0 0 this] by (simp add: js_div_zero)

text \<open>C1: for every integer \<open>n\<close> with \<open>0 \<le> n \<le> 0xFFFFFF\<close>, setting the \<open>color\<close> property of a
  Blur descriptor to \<open>n\<close> and reading it back gives exactly \<open>n\<close>, with every division and
  multiplication rounded to double precision.  Setting \<open>0xFF0000\<close> gives the glcolor
  \<open>(1, 0, 0)\<close>; the glcolor \<open>(1, 1, 1)\<close> reads back as \<open>0xFFFFFF\<close> and \<open>(0, 0, 0)\<close> as 0.\<close>

theorem color_roundtrip:
  "(0 \<le> n \<and> n \<le> 16777215 \<longrightarrow> get_color (set_color (of_int n) this) = of_int n) \<and>
   glcolor (set_color 16711680 this) = (1, 0, 0) \<and>
   get_color (this\<lparr>glcolor := (1, 1, 1)\<rparr>) = 16777215 \<and>
   get_color (this\<lparr>glcolor := (0, 0, 0)\<rparr>) = 0"
proof (intro conjI impI)
  assume n: "0 \<le> n \<and> n \<le> 16777215"
  then have "take_bit 24 (uint (word_of_int n :: 32 word)) = n"
    by (simp add: uint_word_of_int take_bit_eq_mod)
  then show "get_color (set_color (of_int n) this) = of_int n"
    by (simp only: get_color_set_color ToInt32_of_int)
qed (rule glcolor_set_color_red get_color_white get_color_black)+

theorem color_roundtrip_witness:
  "(0::int) \<le> 1193046 \<and> (1193046::int) \<le> 16777215 \<and>
   get_color (set_color 1193046 (Blur (sprite_ref webgl_scene) None None None None None None))
     = 1193046"
  using color_roundtrip [of 1193046 "Blur (sprite_ref webgl_scene) None None None None None None"]
  by simp

text \<open>C5: a Blur descriptor constructed without arguments has quality 0, x 2, y 2,
  strength 1, steps 4 and the glcolor \<open>(1, 1, 1)\<close>, which reads back as \<open>0xFFFFFF\<close>.\<close>

theorem Blur_defaults:
  "quality (Blur obj None None None None None None) = 0 \<and>
   blur.x (Blur obj None None None None None None) = 2 \<and>
   blur.y (Blur obj None None None None None None) = 2 \<and>
   strength (Blur obj None None None None None None) = 1 \<and>
   steps (Blur obj None None None None None None) = 4 \<and>
   glcolor (Blur obj None None None None None None) = (1, 1, 1) \<and>
   get_color (Blur obj None None None None None None) = 16777215"
proof -
  let ?b = "Blur obj None None None None None None"
  have g: "glcolor ?b = (1, 1, 1)" by (simp add: Blur_def Let_def)
  have "?b = ?b\<lparr>glcolor := (1, 1, 1)\<rparr>" by (simp add: g [symmetric])
  then have "get_color ?b = 16777215" using get_color_white [of ?b] by simp
  then show ?thesis by (simp add: Blur_def Let_def)
qed

text \<open>C2, amended: for every argument tuple (quality \<open>q\<close>, x, y, strength \<open>s\<close>, color \<open>c\<close>,
  steps \<open>n\<close>) the constructed Blur descriptor has the x, y, strength and steps fields
  equal to the arguments, and its \<open>color\<close> property reads back as \<open>c & 0xFFFFFF\<close>: \<open>c\<close>
  converted to a 32-bit integer and masked to its low 24 bits.  No argument is validated
  or rejected (the constructor is total).  Nothing is said about the quality field.\<close>

theorem Blur_stores_arguments:
  "blur.x (Blur obj (Some q) (Some px) (Some py) (Some s) (Some c) (Some n)) = px \<and>
   blur.y (Blur obj (Some q) (Some px) (Some py) (Some s) (Some c) (Some n)) = py \<and>
   strength (Blur obj (Some q) (Some px) (Some py) (Some s) (Some c) (Some n)) = s \<and>
   steps (Blur obj (Some q) (Some px) (Some py) (Some s) (Some c) (Some n)) = n \<and>
   get_color (Blur obj (Some q) (Some px) (Some py) (Some s) (Some c) (Some n))
     = js_and c 16777215"
  by (simp add: Blur_def Let_def get_color_set_color js_and_mask24) (simp add: set_color_def)

text \<open>The claim as first stated fails on the quality field and on a colour beyond 24
  bits.\<close>

theorem Blur_stores_arguments_counterexample:
  "quality (Blur (sprite_ref webgl_scene) (Some 1) (Some 3) (Some 3) (Some 2) (Some 33554431) (Some 5)) \<noteq> 1 \<and>
   get_color (Blur (sprite_ref webgl_scene) (Some 1) (Some 3) (Some 3) (Some 2) (Some 33554431) (Some 5))
     \<noteq> 33554431"
proof -
  have "take_bit 24 (uint (ToInt32 33554431)) = 16777215"
    by (simp add: ToInt32_numeral take_bit_eq_mod)
  then show ?thesis
    by (simp add: Blur_def Let_def get_color_set_color) (simp add: set_color_def)
qed

text \<open>C7: setting the \<open>color\<close> property to an integer \<open>n\<close> gives the same glcolor
  channels, and so the same descriptor, as setting it to \<open>n mod 2\<^sup>2\<^sup>4\<close>; this holds for
  every integer, in particular for every 32-bit one.  The setter is total: nothing is
  thrown.\<close>

theorem set_color_masks:
  "set_color (of_int n) this = set_color (of_int (n mod 2 ^ 24)) this \<and>
   glcolor (set_color (of_int n) this) = glcolor (set_color (of_int (n mod 2 ^ 24)) this)"
proof -
  let ?u = "uint (word_of_int n :: 32 word)" and ?u' = "uint (word_of_int (n mod 2 ^ 24) :: 32 word)"
  have u: "?u = take_bit 32 n" and u': "?u' = take_bit 32 (take_bit 24 n)"
    by (simp_all add: uint_word_of_int take_bit_eq_mod)
  have "take_bit 8 (drop_bit 16 ?u) = take_bit 8 (drop_bit 16 ?u')"
    and "take_bit 8 (drop_bit 8 ?u) = take_bit 8 (drop_bit 8 ?u')"
    and "take_bit 8 ?u = take_bit 8 ?u'"
    unfolding u u' by (auto simp add: bit_eq_iff bit_simps)
  then have "set_color (of_int n) this = set_color (of_int (n mod 2 ^ 24)) this"
    by (simp only: set_color_channels ToInt32_of_int)
  then show ?thesis by simp
qed

end
